theory Spec2Isabelle
  imports
    Main
    "HOL-Library.Product_Lexorder"
    "HOL-Library.List_Lexorder"
    "HOL-Library.Char_ord"
begin

section \<open>Data model\<close>

text \<open>
  The program (\<^verbatim>\<open>src/viz_demo/app.py\<close>) works on pandas DataFrames with a fixed schema.
  A DataFrame is modelled as the list of its rows, in row order, and a row as a record
  whose fields are the columns the program reads.

  \<^item> \<open>team\<close> and \<open>match\<close> are identifiers; the program only groups by them, and pandas
    orders the groups by their keys, so they are values of any linearly ordered type
    (\<open>int\<close> for numbers, \<open>string\<close> for labels).
  \<^item> \<open>phase\<close> and \<open>task\<close> are Python strings: \<open>phase\<close> is compared with the lower-cased
    selector, \<open>task\<close> is tested with \<^verbatim>\<open>str.startswith\<close>. A string is a list of
    characters, each read as one code point in U+0000..U+00FF.
  \<^item> \<open>hit\<close> is summed and nothing else, so it is a value of any commutative additive
    monoid: \<open>int\<close> for Python's unbounded integers, a 64-bit word for a numpy
    \<^verbatim>\<open>int64\<close> column, whose sums wrap around.

  The summary table has exactly the columns \<open>team\<close>, \<open>match\<close>, \<open>phase\<close>, \<open>hit\<close>, in that
  order. The raw table has these and \<open>task\<close>, and may have more: a raw row is an
  extension of a summary row, and the functions on raw rows accept any further fields.
  The columns hold plain values: no column holds a missing value (NaN), the field types
  have none, and no column is a pandas categorical, for which a group-by would also
  list the combinations of categories that no row has.
\<close>

record ('t, 'm, 'h) summary_row =
  team :: 't
  match :: 'm
  phase :: string
  hit :: 'h

record ('t, 'm, 'h) measure_row = "('t, 'm, 'h) summary_row" +
  task :: string

text \<open>
  The table that the "All" branch of the view filter builds has the three columns
  \<open>team\<close>, \<open>match\<close>, \<open>hit\<close>: a row of it is the triple of these values, in column order.
  A table handed to the chart is one or the other.
\<close>

type_synonym ('t, 'm, 'h) total_row = "'t \<times> 'm \<times> 'h"

datatype ('t, 'm, 'h) table =
    PhaseTable "('t, 'm, 'h) summary_row list"
  | TotalTable "('t, 'm, 'h) total_row list"

section \<open>The pandas operations the program calls\<close>

text \<open>\<^verbatim>\<open>s.startswith(pre)\<close> on Python strings.\<close>

definition startswith :: "string \<Rightarrow> string \<Rightarrow> bool" where
  "startswith s pre = (take (length pre) s = pre)"

text \<open>\<^verbatim>\<open>series.str.startswith(pre)\<close>: the boolean mask, one entry per row.\<close>

definition str_startswith :: "string list \<Rightarrow> string \<Rightarrow> bool list" where
  "str_startswith col pre = map (\<lambda>s. startswith s pre) col"

text \<open>
  \<^verbatim>\<open>df.loc[mask, :]\<close> with a boolean mask as long as the frame: the rows whose mask entry
  is true, all columns, in the frame's order.
\<close>

definition loc_rows :: "'r list \<Rightarrow> bool list \<Rightarrow> 'r list" where
  "loc_rows df keep = map fst (filter snd (zip df keep))"

text \<open>
  \<^verbatim>\<open>df.groupby(keys, as_index=False).agg({col: "sum"})\<close>, with pandas' default
  \<^verbatim>\<open>sort=True\<close>: one output row per distinct key tuple of \<open>df\<close>, the key tuples in
  ascending (lexicographic) order, each with the sum of \<open>col\<close> over the rows of its group.
  The output's columns are the key columns followed by \<open>col\<close>.
\<close>

definition groupby_sum ::
  "('r \<Rightarrow> 'k::linorder) \<Rightarrow> ('r \<Rightarrow> 'h::comm_monoid_add) \<Rightarrow> 'r list \<Rightarrow> ('k \<times> 'h) list" where
  "groupby_sum key col df =
     map (\<lambda>k. (k, sum_list (map col (filter (\<lambda>r. key r = k) df))))
       (sort (remdups (map key df)))"

section \<open>The category aggregator\<close>

text \<open>
  \<^verbatim>\<open>get_cube_measures(measures)\<close>, lines 72 to 89 (the parameter is written
  \<open>tmeasures\<close>, the name of the table the module passes in):
  \<^verbatim>\<open>measures.loc[measures.task.str.startswith("cube"), :]
    .groupby(["team", "match", "phase"], as_index=False).agg({"hit": "sum"})\<close>
\<close>

definition get_cube_measures ::
  "('t::linorder, 'm::linorder, 'h::comm_monoid_add, 'z) measure_row_scheme list
     \<Rightarrow> ('t, 'm, 'h) summary_row list" where
  "get_cube_measures tmeasures =
     map (\<lambda>((t, m, p), h). \<lparr>team = t, match = m, phase = p, hit = h\<rparr>)
       (groupby_sum (\<lambda>r. (team r, match r, phase r)) hit
          (loc_rows tmeasures (str_startswith (map task tmeasures) ''cube'')))"

section \<open>The view filter\<close>

text \<open>
  The selector reaches the program from the radio control as a Python value: a string
  when an option is chosen, and the control's other possible values otherwise
  (\<^verbatim>\<open>None\<close> when it is cleared, a number or a boolean if the page sends one).
\<close>

datatype pyval = PyNone | PyBool bool | PyInt int | PyStr string

datatype py_error = AttributeError

text \<open>
  \<^verbatim>\<open>str.lower\<close> on the code points U+0000..U+00FF: the letters A to Z, and the
  accented capitals U+00C0..U+00DE other than the multiplication sign U+00D7, move up
  by 32; every other character stays.
\<close>

definition lower_char :: "char \<Rightarrow> char" where
  "lower_char c =
     (let n = (of_char c :: nat)
      in if (65 \<le> n \<and> n \<le> 90) \<or> (192 \<le> n \<and> n \<le> 222 \<and> n \<noteq> 215)
         then char_of (n + 32) else c)"

definition str_lower :: "string \<Rightarrow> string" where
  "str_lower s = map lower_char s"

text \<open>
  \<^verbatim>\<open>phase.lower()\<close> on a Python value: only a string has the method; on every other
  value the attribute lookup raises \<^verbatim>\<open>AttributeError\<close>.
\<close>

definition py_lower :: "pyval \<Rightarrow> py_error + string" where
  "py_lower v = (case v of PyStr s \<Rightarrow> Inr (str_lower s) | _ \<Rightarrow> Inl AttributeError)"

text \<open>
  The data-filtering step of \<^verbatim>\<open>_build_cube_histogram(cube_measures, phase)\<close>, lines 177
  to 186 (the parameter \<^verbatim>\<open>phase\<close> is written \<open>phase'\<close>, since \<open>phase\<close> is the column):
  \<^verbatim>\<open>if phase.lower() in ["auto", "tele"]:
      cube_measures = cube_measures.loc[cube_measures.phase == phase.lower(), :]
  else:
      cube_measures = cube_measures.groupby(["team", "match"], as_index=False)
                                   .agg({"hit": "sum"})\<close>
  \<^verbatim>\<open>phase.lower()\<close> is evaluated first, so a selector without the method raises before
  any table is built. The second \<^verbatim>\<open>phase.lower()\<close> of line 179 returns what the first
  did; the model binds it once.
\<close>

definition view_filter ::
  "('t::linorder, 'm::linorder, 'h::comm_monoid_add) summary_row list \<Rightarrow> pyval
     \<Rightarrow> py_error + ('t, 'm, 'h) table" where
  "view_filter cube_measures phase' =
     (case py_lower phase' of
        Inl e \<Rightarrow> Inl e
      | Inr p \<Rightarrow>
          if p \<in> set [''auto'', ''tele'']
          then Inr (PhaseTable
                 (loc_rows cube_measures (map (\<lambda>q. q = p) (map phase cube_measures))))
          else Inr (TotalTable
                 (map (\<lambda>((t, m), h). (t, m, h))
                    (groupby_sum (\<lambda>r. (team r, match r)) hit cube_measures))))"

text \<open>The \<open>hit\<close> column of a table: what the histogram is drawn from (\<^verbatim>\<open>x="hit"\<close>).\<close>

definition hit_column :: "('t, 'm, 'h) table \<Rightarrow> 'h list" where
  "hit_column df =
     (case df of PhaseTable rows \<Rightarrow> map hit rows
               | TotalTable rows \<Rightarrow> map (\<lambda>(t, m, h). h) rows)"

text \<open>
  The chart's title, line 189: \<^verbatim>\<open>f"Histogram of Cubes Placed Per Match: {phase}"\<close>.
  The function reaches this line only with a string selector (line 177 raised
  otherwise), and the title keeps the selector as it was given, not lower-cased. The
  title is part of the chart, not of the table the view filter returns.
\<close>

definition plot_title :: "string \<Rightarrow> string" where
  "plot_title s = ''Histogram of Cubes Placed Per Match: '' @ s"

section \<open>The view filter on frame objects\<close>

text \<open>
  In Python the parameter \<^verbatim>\<open>cube_measures\<close> is a reference to a DataFrame object that
  the caller (the module's global of the same name) still holds. Whether the function
  changes that object is a question about the store, so here the frames live in a heap:
  a frame for every address, and the next address to hand out. An address below
  \<open>fresh\<close> holds a live object.
\<close>

type_synonym addr = nat

record ('t, 'm, 'h) heap =
  frames :: "addr \<Rightarrow> ('t, 'm, 'h) table"
  fresh :: addr

text \<open>The constructor of a frame: the new object gets an address no live object has.\<close>

definition new_frame ::
  "('t, 'm, 'h) heap \<Rightarrow> ('t, 'm, 'h) table \<Rightarrow> addr \<times> ('t, 'm, 'h) heap" where
  "new_frame h df = (fresh h, h\<lparr>frames := (frames h)(fresh h := df), fresh := Suc (fresh h)\<rparr>)"

text \<open>
  Lines 177 to 186 on a frame of either shape. On a frame without a \<open>phase\<close> column
  \<^verbatim>\<open>cube_measures.phase\<close> raises \<^verbatim>\<open>AttributeError\<close>; the group-by needs only \<open>team\<close>,
  \<open>match\<close> and \<open>hit\<close>.
\<close>

definition view_filter_table ::
  "('t::linorder, 'm::linorder, 'h::comm_monoid_add) table \<Rightarrow> pyval
     \<Rightarrow> py_error + ('t, 'm, 'h) table" where
  "view_filter_table df phase' =
     (case df of
        PhaseTable rows \<Rightarrow> view_filter rows phase'
      | TotalTable rows \<Rightarrow>
          (case py_lower phase' of
             Inl e \<Rightarrow> Inl e
           | Inr p \<Rightarrow>
               if p \<in> set [''auto'', ''tele'']
               then Inl AttributeError
               else Inr (TotalTable
                      (map (\<lambda>((t, m), h). (t, m, h))
                         (groupby_sum (\<lambda>(t, m, h). (t, m)) (\<lambda>(t, m, h). h) rows)))))"

text \<open>
  Lines 177 to 186 on the heap. The pandas calls \<^verbatim>\<open>.loc[...]\<close> and
  \<^verbatim>\<open>.groupby(...).agg(...)\<close> read their operand and return a new frame object; the
  assignment binds the local name \<^verbatim>\<open>cube_measures\<close> to it. The function returns the
  address the local name is bound to after the step, or the error raised, and the heap.
\<close>

definition view_filter_heap ::
  "('t::linorder, 'm::linorder, 'h::comm_monoid_add) heap \<Rightarrow> addr \<Rightarrow> pyval
     \<Rightarrow> (py_error + addr) \<times> ('t, 'm, 'h) heap" where
  "view_filter_heap h cube_measures phase' =
     (case view_filter_table (frames h cube_measures) phase' of
        Inl e \<Rightarrow> (Inl e, h)
      | Inr df \<Rightarrow> (case new_frame h df of (a, h') \<Rightarrow> (Inr a, h')))"

text \<open>What a call produced: the error, or the contents of the frame it returned.\<close>

definition outcome ::
  "(py_error + addr) \<times> ('t, 'm, 'h) heap \<Rightarrow> py_error + ('t, 'm, 'h) table" where
  "outcome res = (case fst res of Inl e \<Rightarrow> Inl e | Inr a \<Rightarrow> Inr (frames (snd res) a))"

section \<open>The scenarios of the specification\<close>

text \<open>
  The summary rows of the specification's concrete scenario (section 8): team 1 in
  match 1 with 3 hits in auto and 2 in tele, team 2 in match 1 with 1 hit in auto.
\<close>

definition scenario_summary :: "(int, int, int) summary_row list" where
  "scenario_summary =
     [\<lparr>team = 1, match = 1, phase = ''auto'', hit = 3\<rparr>,
      \<lparr>team = 1, match = 1, phase = ''tele'', hit = 2\<rparr>,
      \<lparr>team = 2, match = 1, phase = ''auto'', hit = 1\<rparr>]"

text \<open>
  The raw rows of its second scenario: for one team, match and phase, a cube task with
  1 hit and a cone task with 5.
\<close>

definition scenario_raw :: "(int, int, int) measure_row list" where
  "scenario_raw =
     [\<lparr>team = 1, match = 1, phase = ''auto'', hit = 1, task = ''cube_auto_high''\<rparr>,
      \<lparr>team = 1, match = 1, phase = ''auto'', hit = 5, task = ''cone_auto_high''\<rparr>]"

text \<open>
  A heap with one live frame, the scenario's summary table, at address 0.
\<close>

definition scenario_heap :: "(int, int, int) heap" where
  "scenario_heap =
     \<lparr>frames = (\<lambda>a. PhaseTable [])(0 := PhaseTable scenario_summary), fresh = 1\<rparr>"

section \<open>Facts about the pandas operations\<close>

lemma loc_rows_mask: "loc_rows df (map P df) = filter P df"
  by (induction df) (simp_all add: loc_rows_def)

lemma str_startswith_col:
  "str_startswith (map f df) pre = map (\<lambda>r. startswith (f r) pre) df"
  by (simp add: str_startswith_def)

lemma groupby_sum_keys: "map fst (groupby_sum key col df) = sort (remdups (map key df))"
  by (simp add: groupby_sum_def comp_def)

lemma groupby_sum_distinct: "distinct (map fst (groupby_sum key col df))"
  by (simp add: groupby_sum_keys)

lemma groupby_sum_sorted: "sorted (map fst (groupby_sum key col df))"
  by (simp add: groupby_sum_keys)

lemma groupby_sum_set:
  "set (groupby_sum key col df) =
     (\<lambda>k. (k, sum_list (map col (filter (\<lambda>r. key r = k) df)))) ` key ` set df"
  by (simp add: groupby_sum_def)

lemma sum_list_indicator:
  fixes v :: "'h::comm_monoid_add"
  assumes "distinct ks"
  shows "sum_list (map (\<lambda>k. if a = k then v else 0) ks) = (if a \<in> set ks then v else 0)"
  using assms by (induction ks) auto

lemma sum_list_groups:
  fixes col :: "'r \<Rightarrow> 'h::comm_monoid_add"
  assumes "distinct ks" and "key ` set df \<subseteq> set ks"
  shows "sum_list (map (\<lambda>k. sum_list (map col (filter (\<lambda>r. key r = k) df))) ks)
           = sum_list (map col df)"
  using assms(2)
proof (induction df)
  case Nil
  then show ?case by simp
next
  case (Cons x xs)
  have split: "\<And>k. sum_list (map col (filter (\<lambda>r. key r = k) (x # xs)))
      = (if key x = k then col x else 0) + sum_list (map col (filter (\<lambda>r. key r = k) xs))"
    by simp
  have "sum_list (map (\<lambda>k. sum_list (map col (filter (\<lambda>r. key r = k) (x # xs)))) ks)
      = sum_list (map (\<lambda>k. if key x = k then col x else 0) ks)
        + sum_list (map (\<lambda>k. sum_list (map col (filter (\<lambda>r. key r = k) xs))) ks)"
    unfolding split by (rule sum_list_addf)
  also have "sum_list (map (\<lambda>k. if key x = k then col x else 0) ks) = col x"
    using Cons.prems assms(1) by (simp add: sum_list_indicator)
  also have "sum_list (map (\<lambda>k. sum_list (map col (filter (\<lambda>r. key r = k) xs))) ks)
      = sum_list (map col xs)"
    using Cons.IH Cons.prems by simp
  finally show ?case by simp
qed

lemma groupby_sum_total:
  fixes col :: "'r \<Rightarrow> 'h::comm_monoid_add"
  shows "sum_list (map snd (groupby_sum key col df)) = sum_list (map col df)"
proof -
  have "map snd (groupby_sum key col df)
      = map (\<lambda>k. sum_list (map col (filter (\<lambda>r. key r = k) df))) (sort (remdups (map key df)))"
    by (simp add: groupby_sum_def comp_def)
  moreover have "distinct (sort (remdups (map key df)))"
    by simp
  moreover have "key ` set df \<subseteq> set (sort (remdups (map key df)))"
    by simp
  ultimately show ?thesis
    by (simp add: sum_list_groups)
qed

lemma sum_list_filter_split:
  fixes f :: "'a \<Rightarrow> 'h::comm_monoid_add"
  shows "sum_list (map f xs) =
    sum_list (map f (filter P xs)) + sum_list (map f (filter (\<lambda>x. \<not> P x) xs))"
  by (induction xs) (simp_all add: ac_simps)

lemma filter_eq_distinct:
  "distinct ks \<Longrightarrow> filter (\<lambda>x. x = k) ks = (if k \<in> set ks then [k] else [])"
  by (induction ks) auto

section \<open>Facts about lower-casing\<close>

lemma str_lower_All: "str_lower ''All'' = ''all''"
  by code_simp

lemma str_lower_Auto: "str_lower ''Auto'' = ''auto''"
  by code_simp

lemma str_lower_Tele: "str_lower ''Tele'' = ''tele''"
  by code_simp

lemma str_lower_AUTO: "str_lower ''AUTO'' = ''auto''"
  by code_simp

lemma str_lower_auto: "str_lower ''auto'' = ''auto''"
  by code_simp

section \<open>The category aggregator: its rows\<close>

lemma get_cube_measures_rows:
  "get_cube_measures T =
     map (\<lambda>k. \<lparr>team = fst k, match = fst (snd k), phase = snd (snd k),
                hit = sum_list (map hit (filter (\<lambda>r. (team r, match r, phase r) = k)
                        (filter (\<lambda>r. startswith (task r) ''cube'') T)))\<rparr>)
       (sort (remdups (map (\<lambda>r. (team r, match r, phase r))
          (filter (\<lambda>r. startswith (task r) ''cube'') T))))"
  by (simp add: get_cube_measures_def groupby_sum_def str_startswith_col loc_rows_mask
      case_prod_beta)

lemma get_cube_measures_keys:
  "map (\<lambda>r. (team r, match r, phase r)) (get_cube_measures T) =
     sort (remdups (map (\<lambda>r. (team r, match r, phase r))
        (filter (\<lambda>r. startswith (task r) ''cube'') T)))"
  by (simp add: get_cube_measures_rows comp_def)

lemma get_cube_measures_hits:
  "map hit (get_cube_measures T) =
     map snd (groupby_sum (\<lambda>r. (team r, match r, phase r)) hit
        (filter (\<lambda>r. startswith (task r) ''cube'') T))"
  by (simp add: get_cube_measures_def str_startswith_col loc_rows_mask case_prod_beta comp_def)

text \<open>
  C1. For every raw table \<open>T\<close>, the rows of \<open>get_cube_measures T\<close> are exactly these: for
  each row \<open>x\<close> of \<open>T\<close> whose task starts with "cube", the row with \<open>x\<close>'s team, match and
  phase, in the columns team, match, phase, hit, whose hit is the sum of hit over the
  rows of \<open>T\<close> that start with "cube" and have that team, match and phase; and each
  (team, match, phase) has one row only.
\<close>

theorem get_cube_measures_spec:
  "set (get_cube_measures T) =
     {\<lparr>team = team x, match = match x, phase = phase x,
       hit = sum_list (map hit (filter (\<lambda>r. startswith (task r) ''cube'' \<and>
               team r = team x \<and> match r = match x \<and> phase r = phase x) T))\<rparr> | x.
        x \<in> set T \<and> startswith (task x) ''cube''}
   \<and> distinct (map (\<lambda>r. (team r, match r, phase r)) (get_cube_measures T))"
proof
  show "distinct (map (\<lambda>r. (team r, match r, phase r)) (get_cube_measures T))"
    by (simp add: get_cube_measures_keys)
  have conj_filter: "\<And>k. filter (\<lambda>r. (team r, match r, phase r) = k)
         (filter (\<lambda>r. startswith (task r) ''cube'') T)
       = filter (\<lambda>r. startswith (task r) ''cube'' \<and> team r = fst k \<and> match r = fst (snd k)
            \<and> phase r = snd (snd k)) T"
    by (auto intro: filter_cong)
  show "set (get_cube_measures T) =
     {\<lparr>team = team x, match = match x, phase = phase x,
       hit = sum_list (map hit (filter (\<lambda>r. startswith (task r) ''cube'' \<and>
               team r = team x \<and> match r = match x \<and> phase r = phase x) T))\<rparr> | x.
        x \<in> set T \<and> startswith (task x) ''cube''}"
    unfolding get_cube_measures_rows conj_filter by (force simp: image_iff)
qed

text \<open>
  C4. For every raw table \<open>T\<close>, no two rows of \<open>get_cube_measures T\<close> have the same
  (team, match, phase).
\<close>

theorem get_cube_measures_unique_keys:
  "distinct (map (\<lambda>r. (team r, match r, phase r)) (get_cube_measures T))"
  by (simp add: get_cube_measures_keys)

text \<open>
  C5. For every raw table \<open>T\<close>, the hits of \<open>get_cube_measures T\<close> add up to the hits of
  the rows of \<open>T\<close> whose task starts with "cube".
\<close>

theorem get_cube_measures_hit_total:
  "sum_list (map hit (get_cube_measures T)) =
     sum_list (map hit (filter (\<lambda>r. startswith (task r) ''cube'') T))"
  by (simp add: get_cube_measures_hits groupby_sum_total)

section \<open>The view filter: its two branches\<close>

lemma view_filter_phase_branch:
  "p = ''auto'' \<or> p = ''tele'' \<Longrightarrow> str_lower s = p \<Longrightarrow>
     view_filter S (PyStr s) = Inr (PhaseTable (filter (\<lambda>r. phase r = p) S))"
  by (auto simp: view_filter_def py_lower_def loc_rows_mask comp_def)

lemma view_filter_total_branch:
  "str_lower s \<noteq> ''auto'' \<Longrightarrow> str_lower s \<noteq> ''tele'' \<Longrightarrow>
     view_filter S (PyStr s) =
       Inr (TotalTable (map (\<lambda>((t, m), h). (t, m, h))
              (groupby_sum (\<lambda>r. (team r, match r)) hit S)))"
  by (simp add: view_filter_def py_lower_def)

text \<open>
  C2. For every summary table \<open>S\<close> and every string selector whose lower-cased value is
  "auto" or "tele", the view filter returns the rows of \<open>S\<close> whose phase is that value,
  in their order, as rows of the same four columns.
\<close>

theorem view_filter_known_phase:
  assumes "str_lower s = ''auto'' \<or> str_lower s = ''tele''"
  shows "view_filter S (PyStr s) = Inr (PhaseTable (filter (\<lambda>r. phase r = str_lower s) S))"
  using assms by (auto simp: view_filter_phase_branch)

theorem view_filter_known_phase_witness:
  "(str_lower ''Auto'' = ''auto'' \<or> str_lower ''Auto'' = ''tele'') \<and>
   view_filter scenario_summary (PyStr ''Auto'')
     = Inr (PhaseTable (filter (\<lambda>r. phase r = str_lower ''Auto'') scenario_summary)) \<and>
   filter (\<lambda>r. phase r = str_lower ''Auto'') scenario_summary
     = [\<lparr>team = 1, match = 1, phase = ''auto'', hit = 3\<rparr>,
        \<lparr>team = 2, match = 1, phase = ''auto'', hit = 1\<rparr>]"
proof -
  have h: "str_lower ''Auto'' = ''auto'' \<or> str_lower ''Auto'' = ''tele''"
    by (simp add: str_lower_Auto)
  have f: "filter (\<lambda>r. phase r = str_lower ''Auto'') scenario_summary
     = [\<lparr>team = 1, match = 1, phase = ''auto'', hit = 3\<rparr>,
        \<lparr>team = 2, match = 1, phase = ''auto'', hit = 1\<rparr>]"
    by (simp add: str_lower_Auto scenario_summary_def)
  show ?thesis
    using h f view_filter_known_phase [OF h, of scenario_summary] by blast
qed

text \<open>
  C3. For every summary table \<open>S\<close> and every string selector whose lower-cased value is
  neither "auto" nor "tele", the view filter raises nothing and returns a table of the
  columns team, match, hit: for each row \<open>x\<close> of \<open>S\<close> the row with \<open>x\<close>'s team and match
  and the sum of hit over the rows of \<open>S\<close> with that team and match, each (team, match)
  once.
\<close>

theorem view_filter_default_all:
  assumes "str_lower s \<noteq> ''auto''" and "str_lower s \<noteq> ''tele''"
  shows "\<exists>R. view_filter S (PyStr s) = Inr (TotalTable R)
           \<and> set R = {(team x, match x,
                 sum_list (map hit (filter (\<lambda>r. team r = team x \<and> match r = match x) S))) | x.
                 x \<in> set S}
           \<and> distinct (map (\<lambda>(t, m, h). (t, m)) R)"
proof -
  let ?G = "groupby_sum (\<lambda>r. (team r, match r)) hit S"
  let ?R = "map (\<lambda>((t, m), h). (t, m, h)) ?G"
  have keys: "map (\<lambda>(t, m, h). (t, m)) ?R = map fst ?G"
    by (simp add: comp_def case_prod_beta)
  have "distinct (map (\<lambda>(t, m, h). (t, m)) ?R)"
    unfolding keys by (rule groupby_sum_distinct)
  moreover have "view_filter S (PyStr s) = Inr (TotalTable ?R)"
    using assms by (rule view_filter_total_branch)
  moreover have "set ?R = {(team x, match x,
                 sum_list (map hit (filter (\<lambda>r. team r = team x \<and> match r = match x) S))) | x.
                 x \<in> set S}"
    by (force simp: groupby_sum_set image_iff)
  ultimately show ?thesis by blast
qed

theorem view_filter_default_all_witness:
  "str_lower '''' \<noteq> ''auto'' \<and> str_lower '''' \<noteq> ''tele'' \<and>
   (\<exists>R. view_filter scenario_summary (PyStr '''') = Inr (TotalTable R)
      \<and> set R = {(team x, match x,
            sum_list (map hit (filter (\<lambda>r. team r = team x \<and> match r = match x)
               scenario_summary))) | x. x \<in> set scenario_summary}
      \<and> distinct (map (\<lambda>(t, m, h). (t, m)) R)) \<and>
   view_filter scenario_summary (PyStr '''') = Inr (TotalTable [(1, 1, 5), (2, 1, 1)])"
proof -
  have h1: "str_lower '''' \<noteq> ''auto''" and h2: "str_lower '''' \<noteq> ''tele''"
    by (simp_all add: str_lower_def)
  have e: "view_filter scenario_summary (PyStr '''') = Inr (TotalTable [(1, 1, 5), (2, 1, 1)])"
    by code_simp
  show ?thesis
    using h1 h2 e view_filter_default_all [OF h1 h2, of scenario_summary] by blast
qed

text \<open>
  C6. For every summary table \<open>S\<close> whose phases are all "auto" or "tele", the three calls
  with "All", "Auto" and "Tele" succeed, and the hits of the "All" table add up to the
  hits of the "Auto" table plus the hits of the "Tele" table.
\<close>

theorem view_filter_all_is_auto_plus_tele:
  assumes "\<forall>r\<in>set S. phase r = ''auto'' \<or> phase r = ''tele''"
  shows "\<exists>A B C. view_filter S (PyStr ''All'') = Inr A
           \<and> view_filter S (PyStr ''Auto'') = Inr B
           \<and> view_filter S (PyStr ''Tele'') = Inr C
           \<and> sum_list (hit_column A) = sum_list (hit_column B) + sum_list (hit_column C)"
proof -
  let ?A = "TotalTable (map (\<lambda>((t, m), h). (t, m, h))
              (groupby_sum (\<lambda>r. (team r, match r)) hit S))"
  let ?B = "PhaseTable (filter (\<lambda>r. phase r = ''auto'') S)"
  let ?C = "PhaseTable (filter (\<lambda>r. phase r = ''tele'') S)"
  have a: "view_filter S (PyStr ''All'') = Inr ?A"
    by (rule view_filter_total_branch) (simp_all add: str_lower_All)
  have b: "view_filter S (PyStr ''Auto'') = Inr ?B"
    by (rule view_filter_phase_branch) (simp_all add: str_lower_Auto)
  have c: "view_filter S (PyStr ''Tele'') = Inr ?C"
    by (rule view_filter_phase_branch) (simp_all add: str_lower_Tele)
  have "hit_column ?A = map snd (groupby_sum (\<lambda>r. (team r, match r)) hit S)"
    by (simp add: hit_column_def comp_def case_prod_beta)
  then have ta: "sum_list (hit_column ?A) = sum_list (map hit S)"
    by (simp add: groupby_sum_total)
  have "filter (\<lambda>r. phase r \<noteq> ''auto'') S = filter (\<lambda>r. phase r = ''tele'') S"
    using assms by (auto intro: filter_cong)
  then have "sum_list (map hit S) =
      sum_list (map hit (filter (\<lambda>r. phase r = ''auto'') S))
      + sum_list (map hit (filter (\<lambda>r. phase r = ''tele'') S))"
    using sum_list_filter_split [of hit S "\<lambda>r. phase r = ''auto''"] by simp
  then have "sum_list (hit_column ?A) = sum_list (hit_column ?B) + sum_list (hit_column ?C)"
    using ta by (simp add: hit_column_def)
  with a b c show ?thesis by blast
qed

theorem view_filter_all_is_auto_plus_tele_witness:
  "\<exists>A B C. view_filter scenario_summary (PyStr ''All'') = Inr A
      \<and> view_filter scenario_summary (PyStr ''Auto'') = Inr B
      \<and> view_filter scenario_summary (PyStr ''Tele'') = Inr C
      \<and> sum_list (hit_column A) = sum_list (hit_column B) + sum_list (hit_column C)"
proof -
  have h: "\<forall>r\<in>set scenario_summary. phase r = ''auto'' \<or> phase r = ''tele''"
    by (simp add: scenario_summary_def)
  show ?thesis
    using view_filter_all_is_auto_plus_tele [OF h] .
qed

text \<open>
  C7. For every summary table \<open>S\<close>, the view filter returns the same for the selectors
  "AUTO" and "auto".
\<close>

theorem view_filter_case_insensitive:
  "view_filter S (PyStr ''AUTO'') = view_filter S (PyStr ''auto'')"
  by (simp add: view_filter_def py_lower_def str_lower_AUTO str_lower_auto)

text \<open>
  C10. For every summary table and every selector that is not a string, the view filter
  raises \<^verbatim>\<open>AttributeError\<close>: it does not fall through to the "All" table.
\<close>

theorem view_filter_non_string_raises:
  assumes "\<forall>s. phase' \<noteq> PyStr s"
  shows "view_filter S phase' = Inl AttributeError"
  using assms by (cases phase') (simp_all add: view_filter_def py_lower_def)

theorem view_filter_non_string_raises_witness:
  "(\<forall>s. PyNone \<noteq> PyStr s) \<and> view_filter scenario_summary PyNone = Inl AttributeError"
proof -
  have h: "\<forall>s. PyNone \<noteq> PyStr s"
    by simp
  show ?thesis
    using h view_filter_non_string_raises [OF h, of scenario_summary] by simp
qed

section \<open>The category aggregator: one group\<close>

lemma get_cube_measures_group:
  "filter (\<lambda>r. team r = t \<and> match r = m \<and> phase r = p) (get_cube_measures T) =
     (if \<exists>x\<in>set T. startswith (task x) ''cube'' \<and> team x = t \<and> match x = m \<and> phase x = p
      then [\<lparr>team = t, match = m, phase = p,
             hit = sum_list (map hit (filter (\<lambda>r. startswith (task r) ''cube'')
                     (filter (\<lambda>r. team r = t \<and> match r = m \<and> phase r = p) T)))\<rparr>]
      else [])"
proof -
  let ?ks = "sort (remdups (map (\<lambda>r. (team r, match r, phase r))
          (filter (\<lambda>r. startswith (task r) ''cube'') T)))"
  have d: "distinct ?ks" by simp
  have f: "filter (\<lambda>r. (team r, match r, phase r) = (t, m, p))
         (filter (\<lambda>r. startswith (task r) ''cube'') T)
       = filter (\<lambda>r. startswith (task r) ''cube'')
                     (filter (\<lambda>r. team r = t \<and> match r = m \<and> phase r = p) T)"
    by (auto intro: filter_cong)
  have "filter (\<lambda>r. team r = t \<and> match r = m \<and> phase r = p) (get_cube_measures T)
     = map (\<lambda>k. \<lparr>team = fst k, match = fst (snd k), phase = snd (snd k),
                hit = sum_list (map hit (filter (\<lambda>r. (team r, match r, phase r) = k)
                        (filter (\<lambda>r. startswith (task r) ''cube'') T)))\<rparr>)
         (filter (\<lambda>k. k = (t, m, p)) ?ks)"
    unfolding get_cube_measures_rows filter_map
    by (rule arg_cong [where f = "map _"]) (auto intro: filter_cong simp: comp_def)
  also have "filter (\<lambda>k. k = (t, m, p)) ?ks = (if (t, m, p) \<in> set ?ks then [(t, m, p)] else [])"
    using d by (rule filter_eq_distinct)
  finally show ?thesis
    unfolding f [symmetric] by (auto simp: image_iff)
qed


text \<open>
  C8. For every raw table in which the rows of one (team, match, phase) are a row with
  task "cube_auto_high" and hit 1 and a row with task "cone_auto_high" and hit 5, in
  either order, the aggregator's output has one row for that (team, match, phase), and
  its hit is 1: the cube row is counted, the cone row is not.
\<close>

theorem cube_row_counted_cone_row_excluded:
  fixes T :: "('t::linorder, 'm::linorder, 'h::{comm_monoid_add,numeral}, 'z) measure_row_scheme list"
  assumes rows: "filter (\<lambda>r. team r = t \<and> match r = m \<and> phase r = p) T = [c, k]
               \<or> filter (\<lambda>r. team r = t \<and> match r = m \<and> phase r = p) T = [k, c]"
    and c: "task c = ''cube_auto_high''" "hit c = 1"
    and k: "task k = ''cone_auto_high''" "hit k = 5"
  shows "filter (\<lambda>r. team r = t \<and> match r = m \<and> phase r = p) (get_cube_measures T)
           = [\<lparr>team = t, match = m, phase = p, hit = 1\<rparr>]"
proof -
  define G where "G = filter (\<lambda>r. team r = t \<and> match r = m \<and> phase r = p) T"
  have sc: "startswith (task c) ''cube''" and sk: "\<not> startswith (task k) ''cube''"
    by (simp_all add: c k startswith_def)
  have G: "G = [c, k] \<or> G = [k, c]"
    using rows by (simp only: G_def)
  then have "c \<in> set G"
    by auto
  then have cin: "c \<in> set T" and ck: "team c = t \<and> match c = m \<and> phase c = p"
    by (simp_all add: G_def)
  have ex: "\<exists>x\<in>set T. startswith (task x) ''cube'' \<and> team x = t \<and> match x = m \<and> phase x = p"
    using cin ck sc by blast
  have one: "filter (\<lambda>r. startswith (task r) ''cube'') G = [c]"
    using G sc sk by auto
  have "filter (\<lambda>r. team r = t \<and> match r = m \<and> phase r = p) (get_cube_measures T)
      = [\<lparr>team = t, match = m, phase = p,
             hit = sum_list (map hit (filter (\<lambda>r. startswith (task r) ''cube'') G))\<rparr>]"
    unfolding G_def get_cube_measures_group using ex by (simp only: if_True)
  then show ?thesis
    unfolding one by (simp add: c)
qed

theorem cube_row_counted_cone_row_excluded_witness:
  "filter (\<lambda>r. team r = 1 \<and> match r = 1 \<and> phase r = ''auto'') scenario_raw
     = [\<lparr>team = 1, match = 1, phase = ''auto'', hit = 1, task = ''cube_auto_high''\<rparr>,
        \<lparr>team = 1, match = 1, phase = ''auto'', hit = 5, task = ''cone_auto_high''\<rparr>] \<and>
   filter (\<lambda>r. team r = 1 \<and> match r = 1 \<and> phase r = ''auto'') (get_cube_measures scenario_raw)
     = [\<lparr>team = 1, match = 1, phase = ''auto'', hit = 1\<rparr>] \<and>
   get_cube_measures scenario_raw = [\<lparr>team = 1, match = 1, phase = ''auto'', hit = 1\<rparr>]"
proof -
  let ?c = "\<lparr>team = 1::int, match = 1::int, phase = ''auto'', hit = 1::int,
             task = ''cube_auto_high''\<rparr>"
  let ?k = "\<lparr>team = 1::int, match = 1::int, phase = ''auto'', hit = 5::int,
             task = ''cone_auto_high''\<rparr>"
  have rows: "filter (\<lambda>r. team r = 1 \<and> match r = 1 \<and> phase r = ''auto'') scenario_raw = [?c, ?k]"
    by (simp add: scenario_raw_def)
  have e: "get_cube_measures scenario_raw = [\<lparr>team = 1, match = 1, phase = ''auto'', hit = 1\<rparr>]"
    by code_simp
  have "filter (\<lambda>r. team r = 1 \<and> match r = 1 \<and> phase r = ''auto'') (get_cube_measures scenario_raw)
     = [\<lparr>team = 1, match = 1, phase = ''auto'', hit = 1\<rparr>]"
    by (rule cube_row_counted_cone_row_excluded [where c = ?c and k = ?k])
       (simp_all add: rows)
  with rows e show ?thesis by blast
qed

section \<open>The view filter on the heap\<close>

lemma view_filter_heap_frames:
  "a < fresh h \<Longrightarrow> frames (snd (view_filter_heap h cube_measures phase')) a = frames h a"
  by (simp add: view_filter_heap_def new_frame_def split: sum.splits)

lemma view_filter_heap_outcome:
  "outcome (view_filter_heap h cube_measures phase')
     = view_filter_table (frames h cube_measures) phase'"
  by (simp add: outcome_def view_filter_heap_def new_frame_def split: sum.splits)

text \<open>
  C9. When the view filter is called on a live summary table, every frame that was live
  before the call, the table it was given among them, holds after the call what it held
  before; the call produces what \<open>view_filter\<close> computes from the table's rows and the
  selector; and a second call with the same table and selector, on the heap the first
  call left, produces the same.
\<close>

theorem view_filter_heap_no_mutation:
  assumes "cube_measures < fresh h" and "frames h cube_measures = PhaseTable S"
  shows "frames (snd (view_filter_heap h cube_measures phase')) cube_measures = PhaseTable S
       \<and> (\<forall>a. a < fresh h \<longrightarrow>
            frames (snd (view_filter_heap h cube_measures phase')) a = frames h a)
       \<and> outcome (view_filter_heap h cube_measures phase') = view_filter S phase'
       \<and> outcome (view_filter_heap (snd (view_filter_heap h cube_measures phase'))
                   cube_measures phase')
           = outcome (view_filter_heap h cube_measures phase')"
  using assms
  by (simp add: view_filter_heap_frames view_filter_heap_outcome view_filter_table_def)

theorem view_filter_heap_no_mutation_witness:
  "0 < fresh scenario_heap \<and> frames scenario_heap 0 = PhaseTable scenario_summary \<and>
   frames (snd (view_filter_heap scenario_heap 0 (PyStr ''All''))) 0
     = PhaseTable scenario_summary \<and>
   outcome (view_filter_heap scenario_heap 0 (PyStr ''All''))
     = view_filter scenario_summary (PyStr ''All'') \<and>
   outcome (view_filter_heap (snd (view_filter_heap scenario_heap 0 (PyStr ''All'')))
              0 (PyStr ''All''))
     = outcome (view_filter_heap scenario_heap 0 (PyStr ''All''))"
proof -
  have h1: "0 < fresh scenario_heap"
    by (simp add: scenario_heap_def)
  have h2: "frames scenario_heap 0 = PhaseTable scenario_summary"
    by (simp add: scenario_heap_def)
  show ?thesis
    using h1 h2 view_filter_heap_no_mutation [OF h1 h2, of "PyStr ''All''"] by blast
qed

section \<open>Further properties\<close>

text \<open>
  The rows of the aggregator's output are in ascending order of (team, match, phase):
  pandas sorts the groups by their keys.
\<close>

theorem get_cube_measures_sorted:
  "sorted (map (\<lambda>r. (team r, match r, phase r)) (get_cube_measures T))"
  by (simp add: get_cube_measures_keys)

text \<open>
  The chart's title distinguishes the selectors "AUTO" and "auto", which the view filter
  does not.
\<close>

theorem plot_title_case_sensitive:
  "plot_title ''AUTO'' \<noteq> plot_title ''auto''"
  by (simp add: plot_title_def)

end
